theory Spec2Isabelle
  imports Main
begin

section \<open>Python values and exceptions\<close>

text \<open>
  The development embeds \<^verbatim>\<open>src/main.py\<close>: \<^verbatim>\<open>execute_stored_procedure\<close> and
  \<^verbatim>\<open>list_stored_procedures\<close>. The module needs CPython 3.12 or later (the f-string of
  \<^verbatim>\<open>main\<close> nests double quotes), so the builtins are modelled as CPython 3.12 has them.

  Raw parameter values range over \<^verbatim>\<open>None\<close>, \<^verbatim>\<open>bool\<close>, \<^verbatim>\<open>int\<close>, \<^verbatim>\<open>str\<close>, \<^verbatim>\<open>list\<close>,
  \<^verbatim>\<open>tuple\<close> and \<^verbatim>\<open>dict\<close> (a dict is its item list in insertion order). A \<^verbatim>\<open>str\<close> is a
  list of code points below 256. Floats, timestamps and other objects are not raw
  values of the model; they appear only as results of \<^verbatim>\<open>float\<close> and \<^verbatim>\<open>isoparse\<close>.
\<close>

datatype pyval =
    PNone
  | PBool bool
  | PInt int
  | PStr string
  | PList "pyval list"
  | PTuple "pyval list"
  | PDict "(pyval \<times> pyval) list"

text \<open>
  Exceptions by the classes the \<^verbatim>\<open>except\<close> clauses tell apart, each with \<^verbatim>\<open>str(e)\<close>.
  \<open>PyodbcError\<close> is \<^verbatim>\<open>pyodbc.Error\<close> with its subclasses and \<open>ValueError\<close> is
  \<^verbatim>\<open>ValueError\<close> with its subclasses; the others are subclasses of \<^verbatim>\<open>Exception\<close> that
  are neither. \<^verbatim>\<open>KeyboardInterrupt\<close> and \<^verbatim>\<open>SystemExit\<close> are not errors and are not
  modelled.
\<close>

datatype exn =
    PyodbcError string
  | ValueError string
  | TypeError string
  | UnboundLocalError string
  | OverflowError string
  | KeyError string
  | OtherException string

fun str_exn :: "exn \<Rightarrow> string" where
  "str_exn (PyodbcError m) = m"
| "str_exn (ValueError m) = m"
| "str_exn (TypeError m) = m"
| "str_exn (UnboundLocalError m) = m"
| "str_exn (OverflowError m) = m"
| "str_exn (KeyError m) = m"
| "str_exn (OtherException m) = m"

text \<open>Sequencing of fallible steps: the first exception ends the evaluation.\<close>

fun sequence :: "(exn + 'a) list \<Rightarrow> exn + 'a list" where
  "sequence [] = Inr []"
| "sequence (Inl e # rs) = Inl e"
| "sequence (Inr x # rs) = (case sequence rs of Inl e \<Rightarrow> Inl e | Inr xs \<Rightarrow> Inr (x # xs))"

text \<open>\<^verbatim>\<open>sep.join(parts)\<close>\<close>

fun join :: "string \<Rightarrow> string list \<Rightarrow> string" where
  "join sep [] = []"
| "join sep [x] = x"
| "join sep (x # y # zs) = x @ sep @ join sep (y # zs)"

section \<open>The builtins behind \<^verbatim>\<open>type_mapping\<close>\<close>

subsection \<open>Decimal text of an \<^verbatim>\<open>int\<close>\<close>

definition digit_char :: "nat \<Rightarrow> char" where
  "digit_char d = ''0123456789abcdef'' ! d"

fun digits10 :: "nat \<Rightarrow> string" where
  "digits10 n = (if n < 10 then [digit_char n] else digits10 (n div 10) @ [digit_char (n mod 10)])"

definition int_max_str_digits :: nat where
  "int_max_str_digits = 4300"

text \<open>
  \<^verbatim>\<open>int.__repr__\<close>. CPython refuses to render an \<^verbatim>\<open>int\<close> of more than
  \<^verbatim>\<open>sys.get_int_max_str_digits()\<close> digits (4300 unless reconfigured).
\<close>

definition int_repr :: "int \<Rightarrow> exn + string" where
  "int_repr n =
     (let ds = digits10 (nat \<bar>n\<bar>) in
      if int_max_str_digits < length ds
      then Inl (ValueError (''Exceeds the limit (4300 digits) for integer string conversion; ''
                  @ ''use sys.set_int_max_str_digits() to increase the limit''))
      else Inr (if n < 0 then CHR ''-'' # ds else ds))"

subsection \<open>\<^verbatim>\<open>repr\<close> and \<^verbatim>\<open>str\<close>\<close>

definition ord :: "char \<Rightarrow> nat" where
  "ord c = of_char c"

definition hex2 :: "nat \<Rightarrow> string" where
  "hex2 n = [digit_char (n div 16), digit_char (n mod 16)]"

text \<open>\<^verbatim>\<open>str.isprintable\<close> on one code point below 256.\<close>

definition printable :: "char \<Rightarrow> bool" where
  "printable c = ((32 \<le> ord c \<and> ord c < 127) \<or> (161 \<le> ord c \<and> ord c \<noteq> 173))"

definition repr_char :: "char \<Rightarrow> char \<Rightarrow> string" where
  "repr_char quote c =
     (if c = quote \<or> c = CHR 0x5C then [CHR 0x5C, c]
      else if c = CHR 0x09 then [CHR 0x5C, CHR ''t'']
      else if c = CHR 0x0A then [CHR 0x5C, CHR ''n'']
      else if c = CHR 0x0D then [CHR 0x5C, CHR ''r'']
      else if ord c < 32 \<or> ord c = 127 then [CHR 0x5C, CHR ''x''] @ hex2 (ord c)
      else if ord c < 127 then [c]
      else if printable c then [c]
      else [CHR 0x5C, CHR ''x''] @ hex2 (ord c))"

text \<open>
  \<^verbatim>\<open>repr\<close> of a \<^verbatim>\<open>str\<close>: single quotes, unless the text has a single quote and no
  double quote.
\<close>

definition repr_str :: "string \<Rightarrow> string" where
  "repr_str s =
     (let quote = (if CHR 0x27 \<in> set s \<and> CHR 0x22 \<notin> set s then CHR 0x22 else CHR 0x27)
      in quote # concat (map (repr_char quote) s) @ [quote])"

fun py_repr :: "pyval \<Rightarrow> exn + string" where
  "py_repr PNone = Inr ''None''"
| "py_repr (PBool b) = Inr (if b then ''True'' else ''False'')"
| "py_repr (PInt n) = int_repr n"
| "py_repr (PStr s) = Inr (repr_str s)"
| "py_repr (PList xs) =
     (case sequence (map py_repr xs) of
        Inl e \<Rightarrow> Inl e
      | Inr rs \<Rightarrow> Inr (''['' @ join '', '' rs @ '']''))"
| "py_repr (PTuple xs) =
     (case sequence (map py_repr xs) of
        Inl e \<Rightarrow> Inl e
      | Inr rs \<Rightarrow> Inr (if length rs = 1 then ''('' @ hd rs @ '',)''
                       else ''('' @ join '', '' rs @ '')''))"
| "py_repr (PDict kvs) =
     (case sequence (map (\<lambda>kv. case py_repr (fst kv) of
                                    Inl e \<Rightarrow> Inl e
                                  | Inr k \<Rightarrow> (case py_repr (snd kv) of
                                               Inl e \<Rightarrow> Inl e
                                             | Inr v \<Rightarrow> Inr (k @ '': '' @ v))) kvs) of
        Inl e \<Rightarrow> Inl e
      | Inr rs \<Rightarrow> Inr (''{'' @ join '', '' rs @ ''}''))"

text \<open>\<^verbatim>\<open>str(x)\<close>: a \<^verbatim>\<open>str\<close> is returned as it is, every other value as its \<^verbatim>\<open>repr\<close>.\<close>

fun py_str :: "pyval \<Rightarrow> exn + string" where
  "py_str (PStr s) = Inr s"
| "py_str v = py_repr v"

subsection \<open>\<^verbatim>\<open>int\<close>\<close>

definition class_name :: "pyval \<Rightarrow> string" where
  "class_name v =
     (case v of
        PNone \<Rightarrow> ''NoneType'' | PBool b \<Rightarrow> ''bool'' | PInt n \<Rightarrow> ''int'' | PStr s \<Rightarrow> ''str''
      | PList xs \<Rightarrow> ''list'' | PTuple xs \<Rightarrow> ''tuple'' | PDict kvs \<Rightarrow> ''dict'')"

definition is_digit :: "char \<Rightarrow> bool" where
  "is_digit c = (c \<in> set ''0123456789'')"

definition digit_val :: "char \<Rightarrow> int" where
  "digit_val c = int (ord c) - 48"

text \<open>
  White space around an \<^verbatim>\<open>int\<close> literal: the ASCII white space of \<^verbatim>\<open>Py_ISSPACE\<close>, and
  the two white-space code points above 127 (NEL and the no-break space), which
  CPython rewrites to a blank before parsing.
\<close>

definition int_space :: "char \<Rightarrow> bool" where
  "int_space c = (c \<in> set [CHR 0x09, CHR 0x0A, CHR 0x0B, CHR 0x0C, CHR 0x0D, CHR 0x20,
                            CHR 0x85, CHR 0xA0])"

fun double_underscore :: "string \<Rightarrow> bool" where
  "double_underscore (a # b # cs) = ((a = CHR ''_'' \<and> b = CHR ''_'') \<or> double_underscore (b # cs))"
| "double_underscore cs = False"

definition decimal_value :: "string \<Rightarrow> int" where
  "decimal_value ds = foldl (\<lambda>a c. 10 * a + digit_val c) 0 ds"

definition invalid_literal :: "string \<Rightarrow> exn" where
  "invalid_literal s =
     ValueError (''invalid literal for int() with base 10: '' @ take 200 (repr_str s))"

text \<open>
  \<^verbatim>\<open>int(s)\<close> for a \<^verbatim>\<open>str\<close>, base 10: white space, an optional sign, then digits in
  which single underscores may stand between two digits, then white space.
\<close>

definition py_int_str :: "string \<Rightarrow> exn + int" where
  "py_int_str s =
     (let s1 = dropWhile int_space s;
          negative = (s1 \<noteq> [] \<and> hd s1 = CHR ''-'');
          s2 = (if s1 \<noteq> [] \<and> (hd s1 = CHR ''-'' \<or> hd s1 = CHR ''+'') then tl s1 else s1);
          run = takeWhile (\<lambda>c. is_digit c \<or> c = CHR ''_'') s2;
          rest = dropWhile (\<lambda>c. is_digit c \<or> c = CHR ''_'') s2;
          ds = filter is_digit run
      in if run = [] \<or> hd run = CHR ''_'' \<or> last run = CHR ''_'' \<or> double_underscore run
         then Inl (invalid_literal s)
         else if int_max_str_digits < length ds
         then Inl (ValueError (''Exceeds the limit (4300 digits) for integer string conversion: ''
                     @ ''value has '' @ digits10 (length ds) @ '' digits; ''
                     @ ''use sys.set_int_max_str_digits() to increase the limit''))
         else if \<not> list_all int_space rest then Inl (invalid_literal s)
         else Inr (if negative then - decimal_value ds else decimal_value ds))"

fun py_int :: "pyval \<Rightarrow> exn + int" where
  "py_int (PInt n) = Inr n"
| "py_int (PBool b) = Inr (if b then 1 else 0)"
| "py_int (PStr s) = py_int_str s"
| "py_int v =
     Inl (TypeError (''int() argument must be a string, a bytes-like object or a real number, not ''
            @ [CHR 0x27] @ class_name v @ [CHR 0x27]))"

subsection \<open>\<^verbatim>\<open>json.dumps(x, ensure_ascii=False)\<close>\<close>

text \<open>
  The escapes of \<^verbatim>\<open>json.encoder.encode_basestring\<close>: the quote, the backslash and the
  control characters below 0x20. Every other code point is emitted as it is.
\<close>

definition json_escape :: "char \<Rightarrow> string" where
  "json_escape c =
     (if c = CHR 0x22 then [CHR 0x5C, CHR 0x22]
      else if c = CHR 0x5C then [CHR 0x5C, CHR 0x5C]
      else if c = CHR 0x0A then [CHR 0x5C, CHR ''n'']
      else if c = CHR 0x0D then [CHR 0x5C, CHR ''r'']
      else if c = CHR 0x09 then [CHR 0x5C, CHR ''t'']
      else if c = CHR 0x08 then [CHR 0x5C, CHR ''b'']
      else if c = CHR 0x0C then [CHR 0x5C, CHR ''f'']
      else if ord c < 32 then [CHR 0x5C, CHR ''u'', CHR ''0'', CHR ''0''] @ hex2 (ord c)
      else [c])"

definition encode_basestring :: "string \<Rightarrow> string" where
  "encode_basestring s = CHR 0x22 # concat (map json_escape s) @ [CHR 0x22]"

text \<open>A dict key as the encoder turns it into the text of a JSON string.\<close>

definition json_key :: "pyval \<Rightarrow> exn + string" where
  "json_key k =
     (case k of
        PStr s \<Rightarrow> Inr s
      | PBool b \<Rightarrow> Inr (if b then ''true'' else ''false'')
      | PNone \<Rightarrow> Inr ''null''
      | PInt n \<Rightarrow> int_repr n
      | _ \<Rightarrow> Inl (TypeError (''keys must be str, int, float, bool or None, not '' @ class_name k)))"

fun json_encode :: "pyval \<Rightarrow> exn + string" where
  "json_encode (PStr s) = Inr (encode_basestring s)"
| "json_encode PNone = Inr ''null''"
| "json_encode (PBool b) = Inr (if b then ''true'' else ''false'')"
| "json_encode (PInt n) = int_repr n"
| "json_encode (PList xs) =
     (case sequence (map json_encode xs) of
        Inl e \<Rightarrow> Inl e
      | Inr rs \<Rightarrow> Inr (''['' @ join '', '' rs @ '']''))"
| "json_encode (PTuple xs) =
     (case sequence (map json_encode xs) of
        Inl e \<Rightarrow> Inl e
      | Inr rs \<Rightarrow> Inr (''['' @ join '', '' rs @ '']''))"
| "json_encode (PDict kvs) =
     (case sequence (map (\<lambda>kv. case json_key (fst kv) of
                                    Inl e \<Rightarrow> Inl e
                                  | Inr k \<Rightarrow> (case json_encode (snd kv) of
                                               Inl e \<Rightarrow> Inl e
                                             | Inr v \<Rightarrow> Inr (encode_basestring k @ '': '' @ v))) kvs) of
        Inl e \<Rightarrow> Inl e
      | Inr rs \<Rightarrow> Inr (''{'' @ join '', '' rs @ ''}''))"

definition json_dumps :: "pyval \<Rightarrow> exn + string" where
  "json_dumps x = json_encode x"

section \<open>\<^verbatim>\<open>execute_stored_procedure\<close>\<close>

subsection \<open>Coercion of one parameter\<close>

text \<open>
  The converters \<^verbatim>\<open>float\<close> and \<^verbatim>\<open>dateutil.parser.isoparse\<close> enter \<^verbatim>\<open>type_mapping\<close> through
  a record, so that the control flow is stated for every library; \<open>cpython\<close> below is the
  library the program runs with. A finite float \<open>Finite negative m e\<close> is the double
  \<open>\<plusminus> m \<times> 2\<^sup>e\<close>; the time zone of a timestamp is absent, UTC, or an offset in seconds.
\<close>

datatype pyfloat = Finite bool int int | Infinite bool | NaN

datatype tzinfo = Naive | UTC | Offset int

record pydatetime =
  year :: int
  month :: int
  day :: int
  hour :: int
  minute :: int
  second :: int
  microsecond :: int
  tz :: tzinfo

record pylib =
  py_float :: "pyval \<Rightarrow> exn + pyfloat"
  isoparse :: "pyval \<Rightarrow> exn + pydatetime"

text \<open>A value bound to a placeholder: a raw value, or what a converter returned.\<close>

datatype bound = Py pyval | Float pyfloat | Datetime pydatetime

definition type_mapping :: "pylib \<Rightarrow> (string \<times> (pyval \<Rightarrow> exn + bound)) list" where
  "type_mapping lib =
     [(''str'', \<lambda>x. map_sum id (Py \<circ> PStr) (py_str x)),
      (''int'', \<lambda>x. map_sum id (Py \<circ> PInt) (py_int x)),
      (''float'', \<lambda>x. map_sum id Float (py_float lib x)),
      (''datetime'', \<lambda>x. map_sum id Datetime (isoparse lib x)),
      (''json'', \<lambda>x. map_sum id (Py \<circ> PStr) (json_dumps x))]"

text \<open>
  \<^verbatim>\<open>hash(x)\<close> raises for a list, a dict, and a tuple that holds one: the result is the
  class named in the \<^verbatim>\<open>TypeError\<close>, \<open>None\<close> when \<open>x\<close> is hashable.
\<close>

fun first_some :: "'a option list \<Rightarrow> 'a option" where
  "first_some [] = None"
| "first_some (None # rs) = first_some rs"
| "first_some (Some x # rs) = Some x"

fun unhashable :: "pyval \<Rightarrow> string option" where
  "unhashable (PList xs) = Some ''list''"
| "unhashable (PDict kvs) = Some ''dict''"
| "unhashable (PTuple xs) = first_some (map unhashable xs)"
| "unhashable v = None"

text \<open>
  \<^verbatim>\<open>value_type in type_mapping\<close> followed by \<^verbatim>\<open>type_mapping[value_type]\<close>: the keys are
  \<^verbatim>\<open>str\<close>, so only an equal \<^verbatim>\<open>str\<close> is found; an unhashable \<^verbatim>\<open>value_type\<close> raises.
\<close>

definition lookup_type :: "pylib \<Rightarrow> pyval \<Rightarrow> exn + (pyval \<Rightarrow> exn + bound) option" where
  "lookup_type lib value_type =
     (case unhashable value_type of
        Some c \<Rightarrow> Inl (TypeError (''unhashable type: '' @ [CHR 0x27] @ c @ [CHR 0x27]))
      | None \<Rightarrow> (case value_type of
                   PStr s \<Rightarrow> Inr (map_of (type_mapping lib) s)
                 | _ \<Rightarrow> Inr None))"

text \<open>The body of the \<^verbatim>\<open>for\<close> loop (lines 55 to 62): what is appended to \<^verbatim>\<open>param_values\<close>.\<close>

definition coerce :: "pylib \<Rightarrow> pyval \<Rightarrow> exn + bound" where
  "coerce lib value =
     (case value of
        PTuple [value_type, actual_value] \<Rightarrow>
          (case lookup_type lib value_type of
             Inl e \<Rightarrow> Inl e
           | Inr (Some convert) \<Rightarrow> convert actual_value
           | Inr None \<Rightarrow> Inr (Py actual_value))
      | _ \<Rightarrow> Inl (ValueError ''Each parameter value must be a tuple of (type, actual_value).''))"

fun for_items :: "pylib \<Rightarrow> (string \<times> pyval) list \<Rightarrow> bound list \<Rightarrow> exn + bound list" where
  "for_items lib [] param_values = Inr param_values"
| "for_items lib ((key, value) # items) param_values =
     (case coerce lib value of
        Inl e \<Rightarrow> Inl e
      | Inr v \<Rightarrow> for_items lib items (param_values @ [v]))"

subsection \<open>The driver\<close>

text \<open>
  The calls on \<^verbatim>\<open>pyodbc\<close>, in the order they are issued. \<open>CursorExit\<close> and \<open>ConnExit\<close> are
  the \<^verbatim>\<open>__exit__\<close> calls of the two \<^verbatim>\<open>with\<close> statements; their flag says whether an
  exception is leaving the block. \<open>PrintCursor\<close> and \<open>Print\<close> are the writes to standard
  output.
\<close>

datatype event =
    Connect "string option"
  | Cursor
  | Execute string "bound list option"
  | PrintCursor
  | Print string
  | Commit
  | Fetchall
  | CursorExit bool
  | ConnExit bool
  | Close

text \<open>
  What the driver answers to each call: an exception, or the value the code goes on with.
  Each call is issued at most once in a run, so one answer per call describes a run.
  \<open>execute\<close> answers with the \<^verbatim>\<open>rowcount\<close> of the cursor it returns, \<open>fetchall\<close> with the
  \<^verbatim>\<open>name\<close> column of the rows.
\<close>

record driver =
  connect :: "string option \<Rightarrow> exn option"
  cursor :: "exn option"
  execute :: "string \<Rightarrow> bound list option \<Rightarrow> exn + int"
  commit :: "exn option"
  fetchall :: "exn + string list"
  cursor_exit :: "bool \<Rightarrow> exn option"
  conn_exit :: "bool \<Rightarrow> exn option"
  close :: "exn option"

record result =
  success :: bool
  error_message :: "string option"
  rows_updated :: "int option"

text \<open>
  Leaving a \<^verbatim>\<open>with\<close> block calls \<^verbatim>\<open>__exit__\<close> on every path; an exception it raises
  replaces the one in flight. \<^verbatim>\<open>pyodbc\<close> never suppresses an exception.
\<close>

definition with_exit ::
  "(bool \<Rightarrow> exn option) \<Rightarrow> (bool \<Rightarrow> event) \<Rightarrow> (exn + 'a) \<times> 's \<times> event list
     \<Rightarrow> (exn + 'a) \<times> 's \<times> event list" where
  "with_exit exit_hook ev blk =
     (case blk of (r, s, tr) \<Rightarrow>
        (case exit_hook (isl r) of
           Some e \<Rightarrow> (Inl e, s, tr @ [ev (isl r)])
         | None \<Rightarrow> (r, s, tr @ [ev (isl r)])))"

definition after :: "event list \<Rightarrow> 'r \<times> 's \<times> event list \<Rightarrow> 'r \<times> 's \<times> event list" where
  "after evs blk = (case blk of (r, s, tr) \<Rightarrow> (r, s, evs @ tr))"

subsection \<open>The body of the \<^verbatim>\<open>try\<close> statement\<close>

definition param_placeholders :: "string list \<Rightarrow> string" where
  "param_placeholders keys = join '', '' (map (\<lambda>key. ''@'' @ key @ '' = ?'') keys)"

text \<open>
  Lines 50 to 70. \<^verbatim>\<open>if params\<close> is false for \<^verbatim>\<open>None\<close> and for the empty dict. The value
  is the binding of the local \<^verbatim>\<open>rows_updated\<close> after the statement: the first branch
  assigns \<^verbatim>\<open>tryres\<close> and leaves \<^verbatim>\<open>rows_updated\<close> unbound (\<open>None\<close>).
\<close>

definition if_params ::
  "pylib \<Rightarrow> driver \<Rightarrow> string \<Rightarrow> (string \<times> pyval) list option \<Rightarrow> (exn + int option) \<times> event list" where
  "if_params lib drv stored_procedure params =
     (case params of
        Some (item # items) \<Rightarrow>
          (case for_items lib (item # items) [] of
             Inl e \<Rightarrow> (Inl e, [])
           | Inr param_values \<Rightarrow>
               (let sql = ''EXEC '' @ stored_procedure @ '' ''
                            @ param_placeholders (map fst (item # items))
                in case execute drv sql (Some param_values) of
                     Inl e \<Rightarrow> (Inl e, [Execute sql (Some param_values)])
                   | Inr tryres \<Rightarrow> (Inr None, [Execute sql (Some param_values), PrintCursor])))
      | _ \<Rightarrow>
          (let sql = ''EXEC '' @ stored_procedure
           in case execute drv sql None of
                Inl e \<Rightarrow> (Inl e, [Execute sql None])
              | Inr rowcount \<Rightarrow> (Inr (Some rowcount), [Execute sql None, Print ''Should be executed''])))"

text \<open>
  Lines 71 to 73, shared by both branches. Reading the unbound \<^verbatim>\<open>rows_updated\<close> raises
  \<^verbatim>\<open>UnboundLocalError\<close> after \<^verbatim>\<open>result["success"] = True\<close> has run.
\<close>

definition commit_and_report ::
  "driver \<Rightarrow> int option \<Rightarrow> result \<Rightarrow> (exn + unit) \<times> result \<times> event list" where
  "commit_and_report drv local_rows_updated result =
     (case commit drv of
        Some e \<Rightarrow> (Inl e, result, [Commit])
      | None \<Rightarrow>
          (case local_rows_updated of
             None \<Rightarrow>
               (Inl (UnboundLocalError
                  (''cannot access local variable '' @ [CHR 0x27] @ ''rows_updated'' @ [CHR 0x27]
                     @ '' where it is not associated with a value'')),
                result\<lparr>success := True\<rparr>, [Commit])
           | Some rowcount \<Rightarrow>
               (Inr (), result\<lparr>success := True, rows_updated := Some rowcount\<rparr>, [Commit])))"

definition try_body ::
  "pylib \<Rightarrow> driver \<Rightarrow> string \<Rightarrow> string \<Rightarrow> (string \<times> pyval) list option \<Rightarrow> result
     \<Rightarrow> (exn + unit) \<times> result \<times> event list" where
  "try_body lib drv connection_string stored_procedure params result =
     (case connect drv (Some connection_string) of
        Some e \<Rightarrow> (Inl e, result, [Connect (Some connection_string)])
      | None \<Rightarrow>
          after [Connect (Some connection_string)]
            (with_exit (conn_exit drv) ConnExit
               (case cursor drv of
                  Some e \<Rightarrow> (Inl e, result, [Cursor])
                | None \<Rightarrow>
                    after [Cursor]
                      (with_exit (cursor_exit drv) CursorExit
                         (case if_params lib drv stored_procedure params of
                            (Inl e, tr) \<Rightarrow> (Inl e, result, tr)
                          | (Inr local_rows_updated, tr) \<Rightarrow>
                              after tr (commit_and_report drv local_rows_updated result))))))"

subsection \<open>The \<^verbatim>\<open>except\<close> clauses and the function\<close>

definition except_clauses :: "exn \<Rightarrow> result \<Rightarrow> result" where
  "except_clauses e result =
     (case e of
        PyodbcError m \<Rightarrow> result\<lparr>error_message := Some (''Database error: '' @ m)\<rparr>
      | ValueError m \<Rightarrow> result\<lparr>error_message := Some (''Value error: '' @ m)\<rparr>
      | _ \<Rightarrow> result\<lparr>error_message := Some (''An unexpected error occurred: '' @ str_exn e)\<rparr>)"

text \<open>Lines 34 to 37: the dict has no \<^verbatim>\<open>rows_updated\<close> key yet.\<close>

definition initial_result :: result where
  "initial_result = \<lparr>success = False, error_message = None, rows_updated = None\<rparr>"

text \<open>The returned dict, and the calls issued on the way.\<close>

definition execute_stored_procedure ::
  "pylib \<Rightarrow> driver \<Rightarrow> string \<Rightarrow> string \<Rightarrow> (string \<times> pyval) list option \<Rightarrow> result \<times> event list" where
  "execute_stored_procedure lib drv connection_string stored_procedure params =
     (case try_body lib drv connection_string stored_procedure params initial_result of
        (Inl e, result, tr) \<Rightarrow> (except_clauses e result, tr)
      | (Inr u, result, tr) \<Rightarrow> (result, tr))"

section \<open>\<^verbatim>\<open>list_stored_procedures\<close>\<close>

definition catalog_query :: string where
  "catalog_query =
     [CHR 0x0A] @ ''        SELECT name'' @ [CHR 0x0A] @ ''        FROM sys.procedures''
       @ [CHR 0x0A] @ ''        ''"

text \<open>
  No \<^verbatim>\<open>try\<close> statement: an exception leaves the function. The connection is not the
  subject of a \<^verbatim>\<open>with\<close> statement; \<^verbatim>\<open>conn.close()\<close> is the statement after the cursor's
  block.
\<close>

definition list_stored_procedures ::
  "(string \<Rightarrow> string option) \<Rightarrow> driver \<Rightarrow> (exn + string list) \<times> event list" where
  "list_stored_procedures getenv drv =
     (let connection_string = getenv ''DbConnectionString'' in
      case connect drv connection_string of
        Some e \<Rightarrow> (Inl e, [Connect connection_string])
      | None \<Rightarrow>
          (case cursor drv of
             Some e \<Rightarrow> (Inl e, [Connect connection_string, Cursor])
           | None \<Rightarrow>
               (case with_exit (cursor_exit drv) CursorExit
                       (case execute drv catalog_query None of
                          Inl e \<Rightarrow> (Inl e, (), [Execute catalog_query None])
                        | Inr c \<Rightarrow>
                            (case fetchall drv of
                               Inl e \<Rightarrow> (Inl e, (), [Execute catalog_query None, Fetchall])
                             | Inr procedures \<Rightarrow>
                                 (Inr procedures, (), [Execute catalog_query None, Fetchall]))) of
                  (Inl e, u, tr) \<Rightarrow> (Inl e, [Connect connection_string, Cursor] @ tr)
                | (Inr procedures, u, tr) \<Rightarrow>
                    (case close drv of
                       Some e \<Rightarrow> (Inl e, [Connect connection_string, Cursor] @ tr @ [Close])
                     | None \<Rightarrow>
                         (Inr procedures, [Connect connection_string, Cursor] @ tr @ [Close])))))"

section \<open>Observations and sample environments\<close>

text \<open>The statements handed to \<^verbatim>\<open>cursor.execute\<close>, with their bound values.\<close>

fun executed :: "event list \<Rightarrow> (string \<times> bound list option) list" where
  "executed [] = []"
| "executed (Execute sql ps # evs) = (sql, ps) # executed evs"
| "executed (ev # evs) = executed evs"


text \<open>A text without control characters: no newline, no tab, nothing below 0x20.\<close>

definition control_free :: "string \<Rightarrow> bool" where
  "control_free t = list_all (\<lambda>c. 32 \<le> ord c) t"

text \<open>
  The characters of the \<^verbatim>\<open>str\<close> objects in a value, in the order \<^verbatim>\<open>json.dumps\<close> visits
  them (a dict item: the key, then the value), and the characters of a text from code
  point 128 on.
\<close>

fun str_chars :: "pyval \<Rightarrow> string" where
  "str_chars (PStr s) = s"
| "str_chars (PList xs) = concat (map str_chars xs)"
| "str_chars (PTuple xs) = concat (map str_chars xs)"
| "str_chars (PDict kvs) = concat (map (\<lambda>kv. str_chars (fst kv) @ str_chars (snd kv)) kvs)"
| "str_chars v = []"

definition non_ascii :: "string \<Rightarrow> string" where
  "non_ascii t = filter (\<lambda>c. 128 \<le> ord c) t"

text \<open>
  A library for the examples. It stands for the real converters at the arguments the
  examples use, \<^verbatim>\<open>float("1.5")\<close>, \<^verbatim>\<open>isoparse("2024-01-15")\<close> and \<^verbatim>\<open>isoparse("abc")\<close>;
  everywhere else it is a stub that raises \<^verbatim>\<open>ValueError\<close>.
\<close>

definition sample_lib :: pylib where
  "sample_lib =
     \<lparr>py_float = (\<lambda>x. if x = PStr ''1.5'' then Inr (Finite False 3 (- 1))
                        else Inl (ValueError ''could not convert string to float'')),
      isoparse = (\<lambda>x. if x = PStr ''2024-01-15''
                        then Inr \<lparr>year = 2024, month = 1, day = 15, hour = 0, minute = 0,
                                   second = 0, microsecond = 0, tz = Naive\<rparr>
                        else Inl (ValueError ''ISO string too short''))\<rparr>"

text \<open>A driver on which every call succeeds; \<open>execute\<close> reports the given \<^verbatim>\<open>rowcount\<close>.\<close>

definition ok_driver :: "int \<Rightarrow> driver" where
  "ok_driver rowcount =
     \<lparr>connect = (\<lambda>cs. None), cursor = None, execute = (\<lambda>sql ps. Inr rowcount), commit = None,
      fetchall = Inr [''sp_UpdatePurgeMarker'', ''sp_Archive''],
      cursor_exit = (\<lambda>raising. None), conn_exit = (\<lambda>raising. None), close = None\<rparr>"

section \<open>Basic facts\<close>

lemma sequence_map_Inr: "sequence (map Inr xs) = Inr xs"
  by (induction xs) simp_all

lemma sequence_Inr_D: "sequence rs = Inr xs \<Longrightarrow> rs = map Inr xs"
  by (induction rs arbitrary: xs rule: sequence.induct) (auto split: sum.splits)

lemma for_items_sequence:
  "for_items lib ps acc = map_sum id ((@) acc) (sequence (map (\<lambda>kv. coerce lib (snd kv)) ps))"
proof (induction ps arbitrary: acc)
  case Nil
  then show ?case by simp
next
  case (Cons p ps)
  obtain k v where p: "p = (k, v)" by (cases p)
  show ?case
    by (cases "coerce lib v"; cases "sequence (map (\<lambda>kv. coerce lib (snd kv)) ps)")
       (simp_all add: p Cons.IH)
qed

lemma if_params_empty: "if_params lib drv sp (Some []) = if_params lib drv sp None"
  by (simp add: if_params_def)

lemma if_params_no_params:
  "params = None \<or> params = Some [] \<Longrightarrow>
   if_params lib drv sp params =
     (case execute drv (''EXEC '' @ sp) None of
        Inl e \<Rightarrow> (Inl e, [Execute (''EXEC '' @ sp) None])
      | Inr n \<Rightarrow> (Inr (Some n), [Execute (''EXEC '' @ sp) None, Print ''Should be executed'']))"
  by (auto simp: if_params_def Let_def split: sum.splits)

subsection \<open>Outcome, state and trace of a block\<close>

lemma outcome_after: "fst (after evs blk) = fst blk"
  by (cases blk) (simp add: after_def)

lemma state_after: "fst (snd (after evs blk)) = fst (snd blk)"
  by (cases blk) (simp add: after_def)

lemma trace_after: "snd (snd (after evs blk)) = evs @ snd (snd blk)"
  by (cases blk) (simp add: after_def)

lemma outcome_with_exit:
  "fst (with_exit h ev blk) = (case h (isl (fst blk)) of Some e \<Rightarrow> Inl e | None \<Rightarrow> fst blk)"
  by (cases blk) (simp add: with_exit_def split: option.splits)

lemma state_with_exit: "fst (snd (with_exit h ev blk)) = fst (snd blk)"
  by (cases blk) (simp add: with_exit_def split: option.splits)

lemma trace_with_exit: "snd (snd (with_exit h ev blk)) = snd (snd blk) @ [ev (isl (fst blk))]"
  by (cases blk) (simp add: with_exit_def split: option.splits)

lemmas block_simps =
  outcome_after state_after trace_after outcome_with_exit state_with_exit trace_with_exit

lemma execute_result:
  "fst (execute_stored_procedure lib drv cs sp params) =
     (case fst (try_body lib drv cs sp params initial_result) of
        Inl e \<Rightarrow> except_clauses e (fst (snd (try_body lib drv cs sp params initial_result)))
      | Inr u \<Rightarrow> fst (snd (try_body lib drv cs sp params initial_result)))"
  by (cases "try_body lib drv cs sp params initial_result")
     (auto simp: execute_stored_procedure_def split: sum.splits)

lemma execute_trace:
  "snd (execute_stored_procedure lib drv cs sp params) =
     snd (snd (try_body lib drv cs sp params initial_result))"
  by (cases "try_body lib drv cs sp params initial_result")
     (auto simp: execute_stored_procedure_def split: sum.splits)

lemma success_except: "success (except_clauses e r) = success r"
  by (cases e) (simp_all add: except_clauses_def)

lemma rows_updated_except: "rows_updated (except_clauses e r) = rows_updated r"
  by (cases e) (simp_all add: except_clauses_def)

lemma success_execute:
  "success (fst (execute_stored_procedure lib drv cs sp params)) =
     success (fst (snd (try_body lib drv cs sp params initial_result)))"
  by (simp add: execute_result success_except split: sum.splits)

lemma rows_updated_execute:
  "rows_updated (fst (execute_stored_procedure lib drv cs sp params)) =
     rows_updated (fst (snd (try_body lib drv cs sp params initial_result)))"
  by (simp add: execute_result rows_updated_except split: sum.splits)

lemma try_body_state:
  "fst (snd (try_body lib drv cs sp params r)) =
     (case connect drv (Some cs) of
        Some e \<Rightarrow> r
      | None \<Rightarrow>
          (case cursor drv of
             Some e \<Rightarrow> r
           | None \<Rightarrow>
               (case fst (if_params lib drv sp params) of
                  Inl e \<Rightarrow> r
                | Inr l \<Rightarrow> fst (snd (commit_and_report drv l r)))))"
  by (cases "if_params lib drv sp params")
     (simp add: try_body_def block_simps split: option.splits sum.splits)

lemma executed_append: "executed (a @ b) = executed a @ executed b"
  by (induction a rule: executed.induct) simp_all

lemma commit_and_report_trace: "snd (snd (commit_and_report drv l r)) = [Commit]"
  by (simp add: commit_and_report_def split: option.splits)

lemma try_body_trace:
  assumes "connect drv (Some cs) = None" and "cursor drv = None"
  shows "executed (snd (snd (try_body lib drv cs sp params r)))
           = executed (snd (if_params lib drv sp params))"
  by (cases "if_params lib drv sp params")
     (simp add: try_body_def assms block_simps executed_append commit_and_report_trace
        split: sum.splits)

lemma if_params_some:
  assumes "ps \<noteq> []" and "for_items lib ps [] = Inr vals"
  shows "executed (snd (if_params lib drv sp (Some ps)))
           = [(''EXEC '' @ sp @ '' '' @ param_placeholders (map fst ps), Some vals)]"
proof -
  obtain item items where ps: "ps = item # items"
    using assms(1) by (cases ps) auto
  show ?thesis
    using assms(2) unfolding ps
    by (simp add: if_params_def Let_def split: sum.splits)
qed

lemma for_items_pointwise:
  assumes "for_items lib ps [] = Inr vals"
  shows "length vals = length ps \<and> (\<forall>i<length ps. coerce lib (snd (ps ! i)) = Inr (vals ! i))"
proof -
  have "sequence (map (\<lambda>kv. coerce lib (snd kv)) ps) = Inr vals"
    using assms by (cases "sequence (map (\<lambda>kv. coerce lib (snd kv)) ps)")
      (simp_all add: for_items_sequence)
  then have eq: "map (\<lambda>kv. coerce lib (snd kv)) ps = map Inr vals"
    by (rule sequence_Inr_D)
  then have len: "length vals = length ps"
    by (metis length_map)
  moreover have "coerce lib (snd (ps ! i)) = Inr (vals ! i)" if "i < length ps" for i
  proof -
    have "map (\<lambda>kv. coerce lib (snd kv)) ps ! i = map Inr vals ! i"
      using eq by simp
    then show ?thesis using that len by simp
  qed
  ultimately show ?thesis by blast
qed

lemma error_message_except:
  "error_message (except_clauses e r) =
     Some ((case e of PyodbcError m \<Rightarrow> ''Database error: ''
                    | ValueError m \<Rightarrow> ''Value error: ''
                    | _ \<Rightarrow> ''An unexpected error occurred: '') @ str_exn e)"
  by (cases e) (simp_all add: except_clauses_def)


lemma sequence_first_error:
  "list_all (\<lambda>r. \<not> isl r) pre \<Longrightarrow> sequence (pre @ Inl e # post) = Inl e"
  by (induction pre rule: sequence.induct) simp_all


lemma try_body_coercion_error:
  assumes "connect drv (Some cs) = None" and "cursor drv = None"
    and "cursor_exit drv True = None" and "conn_exit drv True = None"
    and "ps \<noteq> []" and "for_items lib ps [] = Inl e"
  shows "fst (try_body lib drv cs sp (Some ps) r) = Inl e"
    and "fst (snd (try_body lib drv cs sp (Some ps) r)) = r"
proof -
  obtain item items where ps: "ps = item # items"
    using assms(5) by (cases ps) auto
  have ip: "if_params lib drv sp (Some ps) = (Inl e, [])"
    using assms(6) unfolding ps by (simp add: if_params_def)
  show "fst (try_body lib drv cs sp (Some ps) r) = Inl e"
    by (simp add: try_body_def assms(1-4) ip block_simps)
  show "fst (snd (try_body lib drv cs sp (Some ps) r)) = r"
    by (simp add: try_body_state assms(1,2) ip)
qed

subsection \<open>Failures, phase by phase\<close>









subsection \<open>What holds of the returned dict on every path\<close>

lemma error_message_commit_and_report:
  "error_message (fst (snd (commit_and_report drv l r))) = error_message r"
  by (simp add: commit_and_report_def split: option.splits)

lemma try_body_error_message:
  "error_message (fst (snd (try_body lib drv cs sp params r))) = error_message r"
  by (simp add: try_body_state error_message_commit_and_report split: option.splits sum.splits)

lemma error_message_iff_raised:
  "error_message (fst (execute_stored_procedure lib drv cs sp params)) \<noteq> None
     \<longleftrightarrow> isl (fst (try_body lib drv cs sp params initial_result))"
proof (cases "fst (try_body lib drv cs sp params initial_result)")
  case (Inl e)
  then show ?thesis
    by (cases e) (simp_all add: execute_result except_clauses_def)
next
  case (Inr u)
  then show ?thesis
    by (simp add: execute_result try_body_error_message) (simp add: initial_result_def)
qed

lemma success_iff_commit_returned:
  "success (fst (execute_stored_procedure lib drv cs sp params))
     \<longleftrightarrow> connect drv (Some cs) = None \<and> cursor drv = None
         \<and> \<not> isl (fst (if_params lib drv sp params)) \<and> commit drv = None"
  by (auto simp: success_execute try_body_state commit_and_report_def initial_result_def
      split: option.splits sum.splits)

lemma commit_only_after_execute:
  "Commit \<in> set (snd (execute_stored_procedure lib drv cs sp params))
     \<longleftrightarrow> connect drv (Some cs) = None \<and> cursor drv = None
         \<and> \<not> isl (fst (if_params lib drv sp params))"
proof -
  have ip: "Commit \<notin> set (snd (if_params lib drv sp params))"
    by (auto simp: if_params_def Let_def split: option.splits list.splits sum.splits)
  show ?thesis
    using ip
    by (cases "if_params lib drv sp params")
       (auto simp: execute_trace try_body_def block_simps commit_and_report_def
          split: option.splits sum.splits)
qed

lemma rows_updated_only_with_success:
  assumes "rows_updated (fst (execute_stored_procedure lib drv cs sp params)) \<noteq> None"
  shows "success (fst (execute_stored_procedure lib drv cs sp params))
         \<and> (params = None \<or> params = Some [])"
proof -
  have l: "fst (if_params lib drv sp (Some (item # items))) = Inr l \<Longrightarrow> l = None" for item items l
    by (auto simp: if_params_def Let_def split: sum.splits)
  show ?thesis
  proof (cases params)
    case None
    then show ?thesis
      using assms
      by (auto simp: success_execute rows_updated_execute try_body_state commit_and_report_def
          initial_result_def split: option.splits sum.splits)
  next
    case (Some ps)
    show ?thesis
    proof (cases ps)
      case Nil
      then show ?thesis
        using assms Some
        by (auto simp: success_execute rows_updated_execute try_body_state commit_and_report_def
            initial_result_def split: option.splits sum.splits)
    next
      case (Cons item items)
      then show ?thesis
        using assms Some l [of item items]
        by (auto simp: success_execute rows_updated_execute try_body_state commit_and_report_def
            initial_result_def split: option.splits sum.splits)
    qed
  qed
qed

lemma list_stored_procedures_ok:
  assumes "connect drv (getenv ''DbConnectionString'') = None" and "cursor drv = None"
    and "execute drv catalog_query None = Inr n" and "fetchall drv = Inr names"
    and "cursor_exit drv False = None" and "close drv = None"
  shows "list_stored_procedures getenv drv =
           (Inr names,
            [Connect (getenv ''DbConnectionString''), Cursor, Execute catalog_query None, Fetchall,
             CursorExit False, Close])"
  by (simp add: list_stored_procedures_def with_exit_def assms)


subsection \<open>\<^verbatim>\<open>int\<close> reads what \<^verbatim>\<open>int.__repr__\<close> prints, and rejects a text without digits\<close>

declare digits10.simps [simp del]

lemma below_ten: "(d::nat) < 10 \<Longrightarrow> d \<in> {0, 1, 2, 3, 4, 5, 6, 7, 8, 9}"
  by auto

lemma digit_char_digit: "d < 10 \<Longrightarrow> is_digit (digit_char d) \<and> digit_val (digit_char d) = int d"
  using below_ten [of d] by (auto simp: digit_char_def is_digit_def digit_val_def ord_def)

declare digits10.simps [simp del]


lemma digits10_digits: "list_all is_digit (digits10 n)"
proof (induction n rule: digits10.induct)
  case (1 n)
  show ?case
  proof (cases "n < 10")
    case True
    then show ?thesis by (subst digits10.simps) (simp add: digit_char_digit)
  next
    case False
    then show ?thesis using "1.IH" by (subst digits10.simps) (simp add: digit_char_digit)
  qed
qed














subsection \<open>The text \<^verbatim>\<open>json.dumps\<close> returns\<close>

lemma control_free_append: "control_free (a @ b) \<longleftrightarrow> control_free a \<and> control_free b"
  by (simp add: control_free_def)

lemma control_free_Cons: "control_free (c # t) \<longleftrightarrow> 32 \<le> ord c \<and> control_free t"
  by (simp add: control_free_def)

lemma control_free_Nil: "control_free []"
  by (simp add: control_free_def)

lemma control_free_concat: "list_all control_free ts \<Longrightarrow> control_free (concat ts)"
  by (induction ts) (simp_all add: control_free_Nil control_free_append)

lemma control_free_join:
  "control_free sep \<Longrightarrow> list_all control_free ts \<Longrightarrow> control_free (join sep ts)"
  by (induction sep ts rule: join.induct) (simp_all add: control_free_Nil control_free_append)

lemma digit_char_mem: "d < 16 \<Longrightarrow> digit_char d \<in> set ''0123456789abcdef''"
  unfolding digit_char_def by (rule nth_mem) simp

lemma digit_char_visible: "d < 16 \<Longrightarrow> 32 \<le> ord (digit_char d)"
  using digit_char_mem [of d] by (auto simp: ord_def)

lemma control_free_hex2: "n < 256 \<Longrightarrow> control_free (hex2 n)"
  by (simp add: hex2_def control_free_def digit_char_visible less_mult_imp_div_less)

lemma ord_less_256: "ord c < 256"
  by (simp add: ord_def)

lemma control_free_json_escape: "control_free (json_escape c)"
  by (simp add: json_escape_def control_free_Cons control_free_Nil control_free_append
      control_free_hex2 ord_less_256) (simp add: ord_def)

lemma control_free_encode_basestring: "control_free (encode_basestring s)"
  by (simp add: encode_basestring_def control_free_Cons control_free_append control_free_Nil
      control_free_concat control_free_json_escape list_all_iff)
     (simp add: ord_def)

lemma is_digit_visible: "is_digit c \<Longrightarrow> 32 \<le> ord c"
  by (auto simp: is_digit_def ord_def)

lemma control_free_int_repr: "int_repr n = Inr t \<Longrightarrow> control_free t"
proof -
  assume a: "int_repr n = Inr t"
  have d: "control_free (digits10 (nat \<bar>n\<bar>))"
    using digits10_digits [of "nat \<bar>n\<bar>"] is_digit_visible
    by (auto simp: control_free_def list_all_iff)
  from a have "t = CHR ''-'' # digits10 (nat \<bar>n\<bar>) \<or> t = digits10 (nat \<bar>n\<bar>)"
    by (auto simp: int_repr_def Let_def split: if_splits)
  then show ?thesis
    using d by (auto simp: control_free_Cons ord_def)
qed

lemma sequence_all:
  assumes "sequence (map f xs) = Inr rs" and "\<And>x r. x \<in> set xs \<Longrightarrow> f x = Inr r \<Longrightarrow> P r"
  shows "list_all P rs"
proof -
  have eq: "map f xs = map Inr rs"
    using assms(1) by (rule sequence_Inr_D)
  have "P r" if "r \<in> set rs" for r
  proof -
    have "Inr r \<in> set (map f xs)"
      using that eq by simp
    then obtain x where "x \<in> set xs" "f x = Inr r"
      by auto
    then show ?thesis by (rule assms(2))
  qed
  then show ?thesis by (simp add: list_all_iff)
qed

lemma control_free_brackets:
  assumes "list_all control_free rs" and "32 \<le> ord l" and "32 \<le> ord r"
  shows "control_free ([l] @ join '', '' rs @ [r])"
proof -
  have "control_free '', ''"
    by (simp add: control_free_def ord_def)
  then have "control_free (join '', '' rs)"
    using assms(1) by (rule control_free_join)
  then show ?thesis
    using assms(2,3) by (simp add: control_free_append control_free_Cons control_free_Nil)
qed

lemma control_free_json_list:
  assumes "sequence (map json_encode xs) = Inr rs"
    and "\<And>x t. x \<in> set xs \<Longrightarrow> json_encode x = Inr t \<Longrightarrow> control_free t"
  shows "control_free (''['' @ join '', '' rs @ '']'')"
proof -
  have "list_all control_free rs"
    using assms by (rule sequence_all)
  then show ?thesis
    by (rule control_free_brackets) (simp_all add: ord_def)
qed

lemma control_free_json_item:
  assumes "json_key k = Inr ks" and "control_free v"
  shows "control_free (encode_basestring ks @ '': '' @ v)"
  using assms(2)
  by (simp add: control_free_append control_free_Cons control_free_encode_basestring ord_def)

lemma control_free_json_encode: "json_encode v = Inr t \<Longrightarrow> control_free t"
proof (induction v arbitrary: t rule: json_encode.induct)
  case (1 s)
  then show ?case using control_free_encode_basestring by auto
next
  case 2
  then show ?case by (auto simp: control_free_def ord_def)
next
  case (3 b)
  then show ?case by (auto simp: control_free_def ord_def)
next
  case (4 n)
  then show ?case by (simp add: control_free_int_repr)
next
  case (5 xs)
  show ?case
  proof (cases "sequence (map json_encode xs)")
    case (Inl e)
    then show ?thesis using "5.prems" by simp
  next
    case (Inr rs)
    then have "t = ''['' @ join '', '' rs @ '']''"
      using "5.prems" by simp
    then show ?thesis
      using control_free_json_list [OF Inr "5.IH"] by simp
  qed
next
  case (6 xs)
  show ?case
  proof (cases "sequence (map json_encode xs)")
    case (Inl e)
    then show ?thesis using "6.prems" by simp
  next
    case (Inr rs)
    then have "t = ''['' @ join '', '' rs @ '']''"
      using "6.prems" by simp
    then show ?thesis
      using control_free_json_list [OF Inr "6.IH"] by simp
  qed
next
  case (7 kvs)
  define item where "item = (\<lambda>kv. case json_key (fst kv) of
                       Inl e \<Rightarrow> Inl e
                     | Inr k \<Rightarrow> (case json_encode (snd kv) of
                                  Inl e \<Rightarrow> Inl e
                                | Inr v \<Rightarrow> Inr (encode_basestring k @ '': '' @ v)))"
  have enc: "json_encode (PDict kvs) =
               (case sequence (map item kvs) of
                  Inl e \<Rightarrow> Inl e
                | Inr rs \<Rightarrow> Inr (''{'' @ join '', '' rs @ ''}''))"
    unfolding item_def by (rule json_encode.simps)
  have step: "control_free r" if "kv \<in> set kvs" and "item kv = Inr r" for kv r
  proof (cases "json_key (fst kv)")
    case (Inl e)
    then show ?thesis using that(2) by (simp add: item_def)
  next
    case k: (Inr ks)
    show ?thesis
    proof (cases "json_encode (snd kv)")
      case (Inl e)
      then show ?thesis using that(2) k by (simp add: item_def)
    next
      case v: (Inr vs)
      have "control_free vs"
        using "7.IH" [OF that(1) k v] .
      moreover have "r = encode_basestring ks @ '': '' @ vs"
        using that(2) k v by (simp add: item_def)
      ultimately show ?thesis
        using control_free_json_item [OF k] by simp
    qed
  qed
  show ?case
  proof (cases "sequence (map item kvs)")
    case (Inl e)
    then show ?thesis using "7.prems" by (simp add: enc del: json_encode.simps)
  next
    case (Inr rs)
    then have t: "t = ''{'' @ join '', '' rs @ ''}''"
      using "7.prems" by (simp add: enc del: json_encode.simps)
    have "list_all control_free rs"
      using Inr step by (rule sequence_all)
    then have "control_free ([CHR ''{''] @ join '', '' rs @ [CHR ''}''])"
      by (rule control_free_brackets) (simp_all add: ord_def)
    then show ?thesis
      by (simp add: t)
  qed
qed

lemma json_escape_non_ascii:
  assumes "128 \<le> ord c"
  shows "json_escape c = [c]"
proof -
  have n: "c \<noteq> d" if "ord d < 128" for d
    using that assms by auto
  have "c \<noteq> CHR 0x22" "c \<noteq> CHR 0x5C" "c \<noteq> CHR 0x0A" "c \<noteq> CHR 0x0D" "c \<noteq> CHR 0x09"
    "c \<noteq> CHR 0x08" "c \<noteq> CHR 0x0C"
    by (rule n, simp add: ord_def)+
  moreover have "\<not> ord c < 32"
    using assms by simp
  ultimately show ?thesis
    by (simp add: json_escape_def)
qed

lemma concat_map_singleton: "(\<And>c. c \<in> set s \<Longrightarrow> f c = [c]) \<Longrightarrow> concat (map f s) = s"
  by (induction s) simp_all


lemma join_hd_tl: "rs \<noteq> [] \<Longrightarrow> join sep rs = hd rs @ concat (map ((@) sep) (tl rs))"
  by (induction sep rs rule: join.induct) simp_all

lemma sequence_pointwise:
  assumes "length rs = length xs" and "\<And>i. i < length xs \<Longrightarrow> f (xs ! i) = Inr (rs ! i)"
  shows "sequence (map f xs) = Inr rs"
proof -
  have "map f xs = map Inr rs"
    using assms by (intro nth_equalityI) simp_all
  then show ?thesis
    by (simp add: sequence_map_Inr)
qed

lemma sequence_fails_at:
  assumes "i < length xs" and "\<And>j. j < i \<Longrightarrow> \<not> isl (f (xs ! j))" and "f (xs ! i) = Inl e"
  shows "sequence (map f xs) = Inl e"
proof -
  have xs: "xs = take i xs @ xs ! i # drop (Suc i) xs"
    using assms(1) by (rule id_take_nth_drop)
  have pre: "list_all (\<lambda>r. \<not> isl r) (map f (take i xs))"
    using assms(1,2) by (auto simp: list_all_iff in_set_conv_nth)
  have "sequence (map f (take i xs) @ Inl e # map f (drop (Suc i) xs)) = Inl e"
    using pre by (rule sequence_first_error)
  moreover have "map f xs = map f (take i xs) @ Inl e # map f (drop (Suc i) xs)"
    by (subst xs) (simp add: assms(3))
  ultimately show ?thesis by simp
qed

lemma non_ascii_append: "non_ascii (a @ b) = non_ascii a @ non_ascii b"
  by (simp add: non_ascii_def)

lemma non_ascii_concat: "non_ascii (concat ts) = concat (map non_ascii ts)"
  by (induction ts) (simp_all add: non_ascii_def)

lemma non_ascii_Nil_iff: "non_ascii t = [] \<longleftrightarrow> list_all (\<lambda>c. ord c < 128) t"
  by (induction t) (simp_all add: non_ascii_def not_le)

lemma non_ascii_Nil: "non_ascii [] = []"
  by (simp add: non_ascii_def)

lemma non_ascii_join:
  "non_ascii sep = [] \<Longrightarrow> non_ascii (join sep ts) = concat (map non_ascii ts)"
  by (induction sep ts rule: join.induct) (simp_all add: non_ascii_append non_ascii_Nil)

lemma digit_char_ascii: "d < 16 \<Longrightarrow> ord (digit_char d) < 128"
  using digit_char_mem [of d] by (auto simp: ord_def)

lemma ascii_json_escape:
  assumes "ord c < 128"
  shows "list_all (\<lambda>d. ord d < 128) (json_escape c)"
proof -
  have h: "ord (digit_char (ord c div 16)) < 128" "ord (digit_char (ord c mod 16)) < 128"
    using ord_less_256 [of c] by (simp_all add: digit_char_ascii less_mult_imp_div_less)
  show ?thesis
    using assms h by (simp add: json_escape_def hex2_def) (simp add: ord_def)
qed

lemma non_ascii_json_escape: "non_ascii (json_escape c) = non_ascii [c]"
proof (cases "128 \<le> ord c")
  case True
  then show ?thesis by (simp add: json_escape_non_ascii)
next
  case False
  then have "non_ascii (json_escape c) = []"
    by (simp add: non_ascii_Nil_iff ascii_json_escape)
  then show ?thesis
    using False by (simp add: non_ascii_def)
qed

lemma non_ascii_escaped: "non_ascii (concat (map json_escape s)) = non_ascii s"
proof (induction s)
  case Nil
  then show ?case by simp
next
  case (Cons c s)
  have "non_ascii (c # s) = non_ascii [c] @ non_ascii s"
    by (simp add: non_ascii_def)
  then show ?case
    by (simp add: non_ascii_append non_ascii_json_escape Cons.IH)
qed

lemma non_ascii_quote: "non_ascii [CHR 0x22] = []"
  by (simp add: non_ascii_def ord_def)

lemma non_ascii_encode_basestring: "non_ascii (encode_basestring s) = non_ascii s"
proof -
  have "encode_basestring s = [CHR 0x22] @ concat (map json_escape s) @ [CHR 0x22]"
    by (simp add: encode_basestring_def)
  then show ?thesis
    by (simp only: non_ascii_append non_ascii_escaped non_ascii_quote append_Nil append_Nil2)
qed

lemma is_digit_ascii: "is_digit c \<Longrightarrow> ord c < 128"
  by (auto simp: is_digit_def ord_def)

lemma non_ascii_int_repr: "int_repr n = Inr t \<Longrightarrow> non_ascii t = []"
proof -
  assume a: "int_repr n = Inr t"
  have d: "list_all (\<lambda>c. ord c < 128) (digits10 (nat \<bar>n\<bar>))"
    using digits10_digits [of "nat \<bar>n\<bar>"] is_digit_ascii by (auto simp: list_all_iff)
  have m: "ord (CHR ''-'') < 128"
    by (simp add: ord_def)
  from a have "t = CHR ''-'' # digits10 (nat \<bar>n\<bar>) \<or> t = digits10 (nat \<bar>n\<bar>)"
    by (auto simp: int_repr_def Let_def split: if_splits)
  then show ?thesis
    using d m by (auto simp: non_ascii_Nil_iff)
qed


lemma non_ascii_brackets:
  assumes "non_ascii [l] = []" and "non_ascii [r] = []"
  shows "non_ascii ([l] @ join '', '' rs @ [r]) = concat (map non_ascii rs)"
proof -
  have "non_ascii '', '' = []"
    by (simp add: non_ascii_def ord_def)
  then have "non_ascii (join '', '' rs) = concat (map non_ascii rs)"
    by (rule non_ascii_join)
  then show ?thesis
    using assms by (simp only: non_ascii_append append_Nil append_Nil2)
qed

lemma sequence_map_cong:
  assumes "sequence (map f xs) = Inr rs" and "\<And>x r. x \<in> set xs \<Longrightarrow> f x = Inr r \<Longrightarrow> g r = h x"
  shows "map g rs = map h xs"
proof -
  have eq: "map f xs = map Inr rs"
    using assms(1) by (rule sequence_Inr_D)
  then have len: "length rs = length xs"
    by (metis length_map)
  show ?thesis
  proof (rule nth_equalityI)
    show "length (map g rs) = length (map h xs)"
      using len by simp
    fix i assume "i < length (map g rs)"
    then have i: "i < length xs"
      using len by simp
    have "map f xs ! i = map Inr rs ! i"
      using eq by simp
    then have "f (xs ! i) = Inr (rs ! i)"
      using i len by simp
    then have "g (rs ! i) = h (xs ! i)"
      using i by (intro assms(2)) simp_all
    then show "map g rs ! i = map h xs ! i"
      using i len by simp
  qed
qed

lemma non_ascii_json_list:
  assumes "sequence (map json_encode xs) = Inr rs"
    and "\<And>x t. x \<in> set xs \<Longrightarrow> json_encode x = Inr t \<Longrightarrow> non_ascii t = non_ascii (str_chars x)"
  shows "non_ascii (''['' @ join '', '' rs @ '']'') = non_ascii (concat (map str_chars xs))"
proof -
  have "map non_ascii rs = map (\<lambda>x. non_ascii (str_chars x)) xs"
    using assms by (rule sequence_map_cong)
  then have "concat (map non_ascii rs) = non_ascii (concat (map str_chars xs))"
    by (simp add: non_ascii_concat comp_def)
  moreover have "non_ascii (''['' @ join '', '' rs @ '']'') = concat (map non_ascii rs)"
    by (rule non_ascii_brackets) (simp_all add: non_ascii_def ord_def)
  ultimately show ?thesis by simp
qed

lemma json_key_chars: "json_key k = Inr ks \<Longrightarrow> non_ascii ks = non_ascii (str_chars k)"
  by (cases k) (auto simp: json_key_def non_ascii_Nil non_ascii_int_repr, simp_all add: non_ascii_def ord_def)

lemma non_ascii_json_encode: "json_encode v = Inr t \<Longrightarrow> non_ascii t = non_ascii (str_chars v)"
proof (induction v arbitrary: t rule: json_encode.induct)
  case (1 s)
  then show ?case using non_ascii_encode_basestring by auto
next
  case 2
  then show ?case by (auto simp: non_ascii_def ord_def)
next
  case (3 b)
  then show ?case by (auto simp: non_ascii_def ord_def)
next
  case (4 n)
  then show ?case by (simp add: non_ascii_int_repr non_ascii_Nil)
next
  case (5 xs)
  show ?case
  proof (cases "sequence (map json_encode xs)")
    case (Inl e)
    then show ?thesis using "5.prems" by simp
  next
    case (Inr rs)
    then have "t = ''['' @ join '', '' rs @ '']''"
      using "5.prems" by simp
    then show ?thesis
      using non_ascii_json_list [OF Inr "5.IH"] by simp
  qed
next
  case (6 xs)
  show ?case
  proof (cases "sequence (map json_encode xs)")
    case (Inl e)
    then show ?thesis using "6.prems" by simp
  next
    case (Inr rs)
    then have "t = ''['' @ join '', '' rs @ '']''"
      using "6.prems" by simp
    then show ?thesis
      using non_ascii_json_list [OF Inr "6.IH"] by simp
  qed
next
  case (7 kvs)
  define item where "item = (\<lambda>kv. case json_key (fst kv) of
                       Inl e \<Rightarrow> Inl e
                     | Inr k \<Rightarrow> (case json_encode (snd kv) of
                                  Inl e \<Rightarrow> Inl e
                                | Inr v \<Rightarrow> Inr (encode_basestring k @ '': '' @ v)))"
  have enc: "json_encode (PDict kvs) =
               (case sequence (map item kvs) of
                  Inl e \<Rightarrow> Inl e
                | Inr rs \<Rightarrow> Inr (''{'' @ join '', '' rs @ ''}''))"
    unfolding item_def by (rule json_encode.simps)
  have step: "non_ascii r = non_ascii (str_chars (fst kv) @ str_chars (snd kv))"
    if "kv \<in> set kvs" and "item kv = Inr r" for kv r
  proof (cases "json_key (fst kv)")
    case (Inl e)
    then show ?thesis using that(2) by (simp add: item_def)
  next
    case k: (Inr ks)
    show ?thesis
    proof (cases "json_encode (snd kv)")
      case (Inl e)
      then show ?thesis using that(2) k by (simp add: item_def)
    next
      case v: (Inr vs)
      have "non_ascii vs = non_ascii (str_chars (snd kv))"
        using "7.IH" [OF that(1) k v] .
      moreover have "r = encode_basestring ks @ '': '' @ vs"
        using that(2) k v by (simp add: item_def)
      moreover have "non_ascii '': '' = []"
        by (simp add: non_ascii_def ord_def)
      ultimately show ?thesis
        using json_key_chars [OF k]
        by (simp only: non_ascii_append non_ascii_encode_basestring append_Nil)
    qed
  qed
  show ?case
  proof (cases "sequence (map item kvs)")
    case (Inl e)
    then show ?thesis using "7.prems" by (simp add: enc del: json_encode.simps)
  next
    case (Inr rs)
    then have t: "t = [CHR ''{''] @ join '', '' rs @ [CHR ''}'']"
      using "7.prems" by (simp add: enc del: json_encode.simps)
    have "map non_ascii rs = map (\<lambda>kv. non_ascii (str_chars (fst kv) @ str_chars (snd kv))) kvs"
      using Inr step by (rule sequence_map_cong)
    then have "concat (map non_ascii rs)
                 = non_ascii (concat (map (\<lambda>kv. str_chars (fst kv) @ str_chars (snd kv)) kvs))"
      by (simp add: non_ascii_concat comp_def)
    moreover have "non_ascii ([CHR ''{''] @ join '', '' rs @ [CHR ''}'']) = concat (map non_ascii rs)"
      by (rule non_ascii_brackets) (simp_all add: non_ascii_def ord_def)
    ultimately show ?thesis
      by (simp add: t)
  qed
qed


lemma json_list_text:
  assumes "length rs = length xs" and "\<And>i. i < length xs \<Longrightarrow> json_dumps (xs ! i) = Inr (rs ! i)"
  shows "json_dumps (PList xs) =
           Inr (if xs = [] then ''[]'' else ''['' @ hd rs @ concat (map ((@) '', '') (tl rs)) @ '']'')"
    and "json_dumps (PTuple xs) =
           Inr (if xs = [] then ''[]'' else ''['' @ hd rs @ concat (map ((@) '', '') (tl rs)) @ '']'')"
proof -
  have sq: "sequence (map json_encode xs) = Inr rs"
    using assms by (intro sequence_pointwise) (simp_all add: json_dumps_def)
  have j: "join '', '' rs = (if xs = [] then [] else hd rs @ concat (map ((@) '', '') (tl rs)))"
    using assms(1) by (cases "rs = []") (auto simp: join_hd_tl)
  show "json_dumps (PList xs) =
           Inr (if xs = [] then ''[]'' else ''['' @ hd rs @ concat (map ((@) '', '') (tl rs)) @ '']'')"
    by (simp add: json_dumps_def sq j)
  show "json_dumps (PTuple xs) =
           Inr (if xs = [] then ''[]'' else ''['' @ hd rs @ concat (map ((@) '', '') (tl rs)) @ '']'')"
    by (simp add: json_dumps_def sq j)
qed

lemma json_list_fails:
  assumes "i < length xs" and "\<And>j. j < i \<Longrightarrow> \<not> isl (json_dumps (xs ! j))"
    and "json_dumps (xs ! i) = Inl e"
  shows "json_dumps (PList xs) = Inl e" and "json_dumps (PTuple xs) = Inl e"
proof -
  have "sequence (map json_encode xs) = Inl e"
    using assms by (intro sequence_fails_at [where i = i]) (simp_all add: json_dumps_def)
  then show "json_dumps (PList xs) = Inl e" and "json_dumps (PTuple xs) = Inl e"
    by (simp_all add: json_dumps_def)
qed

lemma json_dict_text:
  assumes "length rs = length kvs"
    and "\<And>i. i < length kvs \<Longrightarrow>
           \<exists>k v. json_key (fst (kvs ! i)) = Inr k \<and> json_dumps (snd (kvs ! i)) = Inr v
                 \<and> rs ! i = [CHR 0x22] @ concat (map json_escape k) @ [CHR 0x22] @ '': '' @ v"
  shows "json_dumps (PDict kvs) =
           Inr (if kvs = [] then ''{}'' else ''{'' @ hd rs @ concat (map ((@) '', '') (tl rs)) @ ''}'')"
proof -
  define item where "item = (\<lambda>kv. case json_key (fst kv) of
                       Inl e \<Rightarrow> Inl e
                     | Inr k \<Rightarrow> (case json_encode (snd kv) of
                                  Inl e \<Rightarrow> Inl e
                                | Inr v \<Rightarrow> Inr (encode_basestring k @ '': '' @ v)))"
  have enc: "json_encode (PDict kvs) =
               (case sequence (map item kvs) of
                  Inl e \<Rightarrow> Inl e
                | Inr rs \<Rightarrow> Inr (''{'' @ join '', '' rs @ ''}''))"
    unfolding item_def by (rule json_encode.simps)
  have "item (kvs ! i) = Inr (rs ! i)" if i: "i < length kvs" for i
  proof -
    obtain k v where "json_key (fst (kvs ! i)) = Inr k" "json_encode (snd (kvs ! i)) = Inr v"
      "rs ! i = [CHR 0x22] @ concat (map json_escape k) @ [CHR 0x22] @ '': '' @ v"
      using assms(2) [OF i] by (auto simp: json_dumps_def)
    then show ?thesis
      by (simp add: item_def encode_basestring_def)
  qed
  then have sq: "sequence (map item kvs) = Inr rs"
    using assms(1) by (intro sequence_pointwise) simp_all
  have j: "join '', '' rs = (if kvs = [] then [] else hd rs @ concat (map ((@) '', '') (tl rs)))"
    using assms(1) by (cases "rs = []") (auto simp: join_hd_tl)
  show ?thesis
    unfolding json_dumps_def enc by (simp add: sq j)
qed

lemma json_dict_fails:
  "json_key k = Inl e \<Longrightarrow> json_dumps (PDict ((k, v) # kvs)) = Inl e"
  "json_key k = Inr ks \<Longrightarrow> json_dumps v = Inl e \<Longrightarrow> json_dumps (PDict ((k, v) # kvs)) = Inl e"
  by (simp_all add: json_dumps_def)

lemma json_escape_plain:
  assumes "32 \<le> ord c" and "c \<noteq> CHR 0x22" and "c \<noteq> CHR 0x5C"
  shows "json_escape c = [c]"
proof -
  have n: "c \<noteq> d" if "ord d < 32" for d
    using that assms(1) by auto
  have "c \<noteq> CHR 0x0A" "c \<noteq> CHR 0x0D" "c \<noteq> CHR 0x09" "c \<noteq> CHR 0x08" "c \<noteq> CHR 0x0C"
    by (rule n, simp add: ord_def)+
  moreover have "\<not> ord c < 32"
    using assms(1) by simp
  ultimately show ?thesis
    using assms(2,3) by (simp add: json_escape_def)
qed


lemma json_dict_fails_at:
  assumes "i < length kvs"
    and "\<And>j. j < i \<Longrightarrow> \<not> isl (json_key (fst (kvs ! j))) \<and> \<not> isl (json_dumps (snd (kvs ! j)))"
    and "json_key (fst (kvs ! i)) = Inl e
         \<or> (\<not> isl (json_key (fst (kvs ! i))) \<and> json_dumps (snd (kvs ! i)) = Inl e)"
  shows "json_dumps (PDict kvs) = Inl e"
proof -
  define item where "item = (\<lambda>kv. case json_key (fst kv) of
                       Inl e \<Rightarrow> Inl e
                     | Inr k \<Rightarrow> (case json_encode (snd kv) of
                                  Inl e \<Rightarrow> Inl e
                                | Inr v \<Rightarrow> Inr (encode_basestring k @ '': '' @ v)))"
  have enc: "json_encode (PDict kvs) =
               (case sequence (map item kvs) of
                  Inl e \<Rightarrow> Inl e
                | Inr rs \<Rightarrow> Inr (''{'' @ join '', '' rs @ ''}''))"
    unfolding item_def by (rule json_encode.simps)
  have ok: "\<not> isl (item (kvs ! j))" if "j < i" for j
    using assms(2) [OF that] by (auto simp: item_def json_dumps_def split: sum.splits)
  have bad: "item (kvs ! i) = Inl e"
    using assms(3) by (auto simp: item_def json_dumps_def split: sum.splits)
  have "sequence (map item kvs) = Inl e"
    using assms(1) ok bad by (rule sequence_fails_at)
  then show ?thesis
    unfolding json_dumps_def enc by simp
qed

subsection \<open>Evaluation on concrete inputs\<close>

lemmas coerce_eval =
  coerce_def lookup_type_def type_mapping_def py_int_str_def is_digit_def int_space_def
  decimal_value_def digit_val_def ord_def int_max_str_digits_def json_dumps_def json_key_def
  encode_basestring_def json_escape_def class_name_def

lemmas run_eval =
  execute_stored_procedure_def try_body_def if_params_def commit_and_report_def with_exit_def
  after_def except_clauses_def initial_result_def ok_driver_def param_placeholders_def

section \<open>The claims\<close>

text \<open>
  C1. The claim: \<^verbatim>\<open>success\<close> is true exactly when \<^verbatim>\<open>error_message\<close> is \<^verbatim>\<open>None\<close>, and
  \<^verbatim>\<open>rows_updated\<close> is present exactly when \<^verbatim>\<open>success\<close> is true. The code breaks it on
  every call with parameters that the driver executes and commits: line 65 binds
  \<^verbatim>\<open>tryres\<close>, line 73 reads \<^verbatim>\<open>rows_updated\<close>, and the \<^verbatim>\<open>UnboundLocalError\<close> is caught after
  \<^verbatim>\<open>success\<close> was set. The returned dict at one such call:
\<close>

theorem success_flag_with_error_message:
  "fst (execute_stored_procedure sample_lib (ok_driver 1) ''DSN=purge''
          ''RPA.journalizing.sp_UpdatePurgeMarker'' (Some [(''days'', PTuple [PStr ''int'', PStr ''30''])]))
     = \<lparr>success = True,
        error_message =
          Some (''An unexpected error occurred: cannot access local variable ''
            @ [CHR 0x27] @ ''rows_updated'' @ [CHR 0x27] @ '' where it is not associated with a value''),
        rows_updated = None\<rparr>"
  by (simp add: run_eval coerce_eval)

text \<open>
  C2. The claim: no exception reaches the caller, and every error becomes a dict with
  \<^verbatim>\<open>success == False\<close> and a prefixed message. No exception reaches the caller
  (\<open>error_message_iff_raised\<close>), but the \<^verbatim>\<open>UnboundLocalError\<close> of line 73 is turned into a
  dict whose \<^verbatim>\<open>success\<close> is true:
\<close>

theorem intercepted_error_reports_success:
  "fst (try_body sample_lib (ok_driver 1) ''DSN=purge'' ''proc''
          (Some [(''payload'', PTuple [PStr ''json'', PDict [(PStr ''a'', PStr ''b'')]])]) initial_result)
     = Inl (UnboundLocalError (''cannot access local variable '' @ [CHR 0x27] @ ''rows_updated''
              @ [CHR 0x27] @ '' where it is not associated with a value''))
   \<and> success (fst (execute_stored_procedure sample_lib (ok_driver 1) ''DSN=purge'' ''proc''
          (Some [(''payload'', PTuple [PStr ''json'', PDict [(PStr ''a'', PStr ''b'')]])])))
   \<and> error_message (fst (execute_stored_procedure sample_lib (ok_driver 1) ''DSN=purge'' ''proc''
          (Some [(''payload'', PTuple [PStr ''json'', PDict [(PStr ''a'', PStr ''b'')]])])))
     \<noteq> None"
  by (simp add: run_eval coerce_eval)




text \<open>
  C4. Once the connection and the cursor are obtained: with no parameters the one
  statement executed is \<^verbatim>\<open>EXEC <procedure>\<close> with no bound values; with parameters whose
  coercions succeed it is \<^verbatim>\<open>EXEC <procedure> @k1 = ?, @k2 = ?, ...\<close> in the order of the
  dict, and the bound values are the coerced values in the same order, one per
  parameter; for the names \<^verbatim>\<open>A\<close>, \<^verbatim>\<open>B\<close> the text is \<^verbatim>\<open>EXEC proc @A = ?, @B = ?\<close>.
\<close>

theorem statement_construction:
  assumes "connect drv (Some cs) = None" and "cursor drv = None"
  shows "(params = None \<or> params = Some [] \<longrightarrow>
            executed (snd (execute_stored_procedure lib drv cs sp params)) = [(''EXEC '' @ sp, None)])
       \<and> (ps \<noteq> [] \<and> for_items lib ps [] = Inr vals \<longrightarrow>
            executed (snd (execute_stored_procedure lib drv cs sp (Some ps)))
              = [(''EXEC '' @ sp @ '' '' @ join '', '' (map (\<lambda>key. ''@'' @ key @ '' = ?'') (map fst ps)),
                  Some vals)]
            \<and> length vals = length ps
            \<and> (\<forall>i<length ps. coerce lib (snd (ps ! i)) = Inr (vals ! i)))
       \<and> (coerce lib a = Inr va \<and> coerce lib b = Inr vb \<longrightarrow>
            executed (snd (execute_stored_procedure lib drv cs ''proc'' (Some [(''A'', a), (''B'', b)])))
              = [(''EXEC proc @A = ?, @B = ?'', Some [va, vb])])"
proof (intro conjI impI)
  assume "params = None \<or> params = Some []"
  then show "executed (snd (execute_stored_procedure lib drv cs sp params)) = [(''EXEC '' @ sp, None)]"
    by (simp add: execute_trace try_body_trace [OF assms] if_params_no_params split: sum.splits)
next
  assume h: "ps \<noteq> [] \<and> for_items lib ps [] = Inr vals"
  then show "executed (snd (execute_stored_procedure lib drv cs sp (Some ps)))
              = [(''EXEC '' @ sp @ '' '' @ join '', '' (map (\<lambda>key. ''@'' @ key @ '' = ?'') (map fst ps)),
                  Some vals)]"
    using if_params_some [of ps lib vals drv sp]
    by (simp add: execute_trace try_body_trace [OF assms] param_placeholders_def)
  from h show "length vals = length ps"
    using for_items_pointwise by blast
  from h show "\<forall>i<length ps. coerce lib (snd (ps ! i)) = Inr (vals ! i)"
    using for_items_pointwise by blast
next
  assume h: "coerce lib a = Inr va \<and> coerce lib b = Inr vb"
  then have "for_items lib [(''A'', a), (''B'', b)] [] = Inr [va, vb]"
    by simp
  then show "executed (snd (execute_stored_procedure lib drv cs ''proc'' (Some [(''A'', a), (''B'', b)])))
              = [(''EXEC proc @A = ?, @B = ?'', Some [va, vb])]"
    using if_params_some [of "[(''A'', a), (''B'', b)]" lib "[va, vb]" drv "''proc''"]
    by (simp add: execute_trace try_body_trace [OF assms] param_placeholders_def)
qed


theorem statement_construction_witness:
  "executed (snd (execute_stored_procedure sample_lib (ok_driver 1) ''DSN=purge'' ''proc'' (Some [])))
     = [(''EXEC proc'', None)]
   \<and> executed (snd (execute_stored_procedure sample_lib (ok_driver 1) ''DSN=purge'' ''proc''
         (Some [(''A'', PTuple [PStr ''int'', PStr ''7'']), (''B'', PTuple [PStr ''str'', PStr ''x''])])))
     = [(''EXEC proc @A = ?, @B = ?'', Some [Py (PInt 7), Py (PStr ''x'')])]"
proof -
  have c: "connect (ok_driver 1) (Some ''DSN=purge'') = None" "cursor (ok_driver 1) = None"
    by (simp_all add: ok_driver_def)
  have f: "for_items sample_lib
             [(''A'', PTuple [PStr ''int'', PStr ''7'']), (''B'', PTuple [PStr ''str'', PStr ''x''])] []
           = Inr [Py (PInt 7), Py (PStr ''x'')]"
    by (simp add: coerce_eval)
  show ?thesis
    using statement_construction [OF c, where params = "Some []" and sp = "''proc''"
        and lib = sample_lib
        and ps = "[(''A'', PTuple [PStr ''int'', PStr ''7'']), (''B'', PTuple [PStr ''str'', PStr ''x''])]"
        and vals = "[Py (PInt 7), Py (PStr ''x'')]"] f
    by simp
qed

text \<open>
  C5. Under the tag \<^verbatim>\<open>"json"\<close> the bound value is the text of
  \<^verbatim>\<open>json.dumps(x, ensure_ascii=False)\<close>: \<^verbatim>\<open>{"a": "b"}\<close> for the dict \<^verbatim>\<open>{"a": "b"}\<close>; a
  \<^verbatim>\<open>str\<close> is quoted with each code point escaped by \<open>json_escape\<close>, which leaves every
  code point from 128 on as it is; and the text is on one line, without any control
  character (items are separated by \<^verbatim>\<open>", "\<close> and a key from its value by \<^verbatim>\<open>": "\<close>).
\<close>

theorem json_coercion:
  "coerce lib (PTuple [PStr ''json'', x]) = map_sum id (Py \<circ> PStr) (json_dumps x)
   \<and> coerce lib (PTuple [PStr ''json'', PDict [(PStr ''a'', PStr ''b'')]])
       = Inr (Py (PStr ''{\"a\": \"b\"}''))
   \<and> json_dumps PNone = Inr ''null''
   \<and> json_dumps (PBool b) = Inr (if b then ''true'' else ''false'')
   \<and> json_dumps (PInt n) = int_repr n
   \<and> json_dumps (PStr s) = Inr ([CHR 0x22] @ concat (map json_escape s) @ [CHR 0x22])
   \<and> (32 \<le> ord c \<and> c \<noteq> CHR 0x22 \<and> c \<noteq> CHR 0x5C \<longrightarrow> json_escape c = [c])
   \<and> json_escape (CHR 0x22) = [CHR 0x5C, CHR 0x22]
   \<and> json_escape (CHR 0x5C) = [CHR 0x5C, CHR 0x5C]
   \<and> json_escape (CHR 0x0A) = [CHR 0x5C, CHR ''n'']
   \<and> json_escape (CHR 0x0D) = [CHR 0x5C, CHR ''r'']
   \<and> json_escape (CHR 0x09) = [CHR 0x5C, CHR ''t'']
   \<and> json_escape (CHR 0x08) = [CHR 0x5C, CHR ''b'']
   \<and> json_escape (CHR 0x0C) = [CHR 0x5C, CHR ''f'']
   \<and> (ord c < 32 \<and> c \<notin> set [CHR 0x0A, CHR 0x0D, CHR 0x09, CHR 0x08, CHR 0x0C] \<longrightarrow>
        json_escape c = [CHR 0x5C, CHR ''u'', CHR ''0'', CHR ''0'',
                         ''0123456789abcdef'' ! (ord c div 16), ''0123456789abcdef'' ! (ord c mod 16)])
   \<and> (length rs = length xs \<and> (\<forall>i<length xs. json_dumps (xs ! i) = Inr (rs ! i)) \<longrightarrow>
        json_dumps (PList xs) =
          Inr (if xs = [] then ''[]'' else ''['' @ hd rs @ concat (map ((@) '', '') (tl rs)) @ '']'')
        \<and> json_dumps (PTuple xs) = json_dumps (PList xs))
   \<and> (i < length xs \<and> (\<forall>j<i. \<not> isl (json_dumps (xs ! j))) \<and> json_dumps (xs ! i) = Inl e \<longrightarrow>
        json_dumps (PList xs) = Inl e \<and> json_dumps (PTuple xs) = Inl e)
   \<and> (length rs = length kvs
        \<and> (\<forall>i<length kvs. \<exists>k v. json_key (fst (kvs ! i)) = Inr k \<and> json_dumps (snd (kvs ! i)) = Inr v
               \<and> rs ! i = [CHR 0x22] @ concat (map json_escape k) @ [CHR 0x22] @ '': '' @ v) \<longrightarrow>
        json_dumps (PDict kvs) =
          Inr (if kvs = [] then ''{}'' else ''{'' @ hd rs @ concat (map ((@) '', '') (tl rs)) @ ''}''))
   \<and> (i < length kvs
        \<and> (\<forall>j<i. \<not> isl (json_key (fst (kvs ! j))) \<and> \<not> isl (json_dumps (snd (kvs ! j))))
        \<and> (json_key (fst (kvs ! i)) = Inl e
            \<or> (\<not> isl (json_key (fst (kvs ! i))) \<and> json_dumps (snd (kvs ! i)) = Inl e)) \<longrightarrow>
        json_dumps (PDict kvs) = Inl e)
   \<and> json_key (PStr s) = Inr s
   \<and> json_key (PInt n) = int_repr n
   \<and> json_key (PBool b) = Inr (if b then ''true'' else ''false'')
   \<and> json_key PNone = Inr ''null''
   \<and> json_key (PTuple xs) = Inl (TypeError ''keys must be str, int, float, bool or None, not tuple'')
   \<and> (json_dumps x = Inr t \<longrightarrow> non_ascii t = non_ascii (str_chars x) \<and> control_free t)"
proof (intro conjI impI)
  show "coerce lib (PTuple [PStr ''json'', x]) = map_sum id (Py \<circ> PStr) (json_dumps x)"
    by (simp add: coerce_def lookup_type_def type_mapping_def)
  show "coerce lib (PTuple [PStr ''json'', PDict [(PStr ''a'', PStr ''b'')]])
       = Inr (Py (PStr ''{\"a\": \"b\"}''))"
    by (simp add: coerce_eval)
  show "json_dumps (PStr s) = Inr ([CHR 0x22] @ concat (map json_escape s) @ [CHR 0x22])"
    by (simp add: json_dumps_def encode_basestring_def)
  show "json_escape c = [c]" if "32 \<le> ord c \<and> c \<noteq> CHR 0x22 \<and> c \<noteq> CHR 0x5C"
    using that by (intro json_escape_plain) simp_all
  show "json_escape c = [CHR 0x5C, CHR ''u'', CHR ''0'', CHR ''0'',
                         ''0123456789abcdef'' ! (ord c div 16), ''0123456789abcdef'' ! (ord c mod 16)]"
    if "ord c < 32 \<and> c \<notin> set [CHR 0x0A, CHR 0x0D, CHR 0x09, CHR 0x08, CHR 0x0C]"
  proof -
    have n: "c \<noteq> d" if "32 \<le> ord d" for d
      using that \<open>ord c < 32 \<and> c \<notin> set [CHR 0x0A, CHR 0x0D, CHR 0x09, CHR 0x08, CHR 0x0C]\<close> by auto
    have "c \<noteq> CHR 0x22" "c \<noteq> CHR 0x5C"
      by (rule n, simp add: ord_def)+
    then show ?thesis
      using that by (simp add: json_escape_def hex2_def digit_char_def)
  qed
  show "json_dumps (PList xs) =
          Inr (if xs = [] then ''[]'' else ''['' @ hd rs @ concat (map ((@) '', '') (tl rs)) @ '']'')"
    if "length rs = length xs \<and> (\<forall>i<length xs. json_dumps (xs ! i) = Inr (rs ! i))"
    using that by (intro json_list_text) simp_all
  show "json_dumps (PTuple xs) = json_dumps (PList xs)"
    if "length rs = length xs \<and> (\<forall>i<length xs. json_dumps (xs ! i) = Inr (rs ! i))"
    by (simp add: json_dumps_def)
  show "json_dumps (PList xs) = Inl e"
    if "i < length xs \<and> (\<forall>j<i. \<not> isl (json_dumps (xs ! j))) \<and> json_dumps (xs ! i) = Inl e"
    using that by (intro json_list_fails(1) [where i = i]) simp_all
  show "json_dumps (PTuple xs) = Inl e"
    if "i < length xs \<and> (\<forall>j<i. \<not> isl (json_dumps (xs ! j))) \<and> json_dumps (xs ! i) = Inl e"
    using that by (intro json_list_fails(2) [where i = i]) simp_all
  show "json_dumps (PDict kvs) =
          Inr (if kvs = [] then ''{}'' else ''{'' @ hd rs @ concat (map ((@) '', '') (tl rs)) @ ''}'')"
    if "length rs = length kvs
        \<and> (\<forall>i<length kvs. \<exists>k v. json_key (fst (kvs ! i)) = Inr k \<and> json_dumps (snd (kvs ! i)) = Inr v
               \<and> rs ! i = [CHR 0x22] @ concat (map json_escape k) @ [CHR 0x22] @ '': '' @ v)"
    using that by (intro json_dict_text) simp_all
  show "json_dumps (PDict kvs) = Inl e"
    if "i < length kvs
        \<and> (\<forall>j<i. \<not> isl (json_key (fst (kvs ! j))) \<and> \<not> isl (json_dumps (snd (kvs ! j))))
        \<and> (json_key (fst (kvs ! i)) = Inl e
            \<or> (\<not> isl (json_key (fst (kvs ! i))) \<and> json_dumps (snd (kvs ! i)) = Inl e))"
    using that by (intro json_dict_fails_at [where i = i]) simp_all
  show "non_ascii t = non_ascii (str_chars x)" if "json_dumps x = Inr t"
    using that by (simp add: json_dumps_def non_ascii_json_encode)
  show "control_free t" if "json_dumps x = Inr t"
    using that by (simp add: json_dumps_def control_free_json_encode)
qed (simp_all add: json_dumps_def json_key_def json_escape_def ord_def class_name_def)


theorem json_coercion_witness:
  "coerce sample_lib (PTuple [PStr ''json'', PDict [(PStr ''a'', PStr ''b'')]])
     = Inr (Py (PStr ''{\"a\": \"b\"}''))
   \<and> json_escape (CHR 0xE9) = [CHR 0xE9]
   \<and> json_escape (CHR 0x01) = [CHR 0x5C, CHR ''u'', CHR ''0'', CHR ''0'', CHR ''0'', CHR ''1'']
   \<and> json_dumps (PList [PInt 1, PStr [CHR 0xE9], PNone]) = Inr ([CHR ''['', CHR ''1'', CHR '','', CHR '' '', CHR 0x22, CHR 0xE9, CHR 0x22] @ '', null]'')
   \<and> json_dumps (PTuple [PInt 1, PStr [CHR 0xE9], PNone]) = json_dumps (PList [PInt 1, PStr [CHR 0xE9], PNone])
   \<and> json_dumps (PList [PInt 1, PDict [(PTuple [], PNone)]])
       = Inl (TypeError ''keys must be str, int, float, bool or None, not tuple'')
   \<and> json_dumps (PDict [(PStr [CHR 0xF8], PList []), (PInt 5, PBool True)])
       = Inr ([CHR ''{'', CHR 0x22, CHR 0xF8, CHR 0x22] @ '': [], \"5\": true}'')
   \<and> json_dumps (PDict [(PStr ''k'', PInt 1), (PTuple [], PNone)])
       = Inl (TypeError ''keys must be str, int, float, bool or None, not tuple'')
   \<and> non_ascii ([CHR ''{'', CHR 0x22, CHR 0xF8, CHR 0x22] @ '': [], \"5\": true}'') = [CHR 0xF8]
   \<and> control_free ([CHR ''{'', CHR 0x22, CHR 0xF8, CHR 0x22] @ '': [], \"5\": true}'')"
proof -
  have i1: "int_repr 1 = Inr ''1''" and i5: "int_repr 5 = Inr ''5''"
    by (simp_all add: int_repr_def int_max_str_digits_def digits10.simps digit_char_def)
  have e9: "json_escape (CHR 0xE9) = [CHR 0xE9]" and f8: "json_escape (CHR 0xF8) = [CHR 0xF8]"
    and k: "json_escape (CHR ''k'') = ''k''"
    by (simp_all add: json_escape_def ord_def)
  have a: "32 \<le> ord (CHR 0xE9) \<and> CHR 0xE9 \<noteq> CHR 0x22 \<and> CHR 0xE9 \<noteq> CHR 0x5C"
    "ord (CHR 0x01) < 32 \<and> CHR 0x01 \<notin> set [CHR 0x0A, CHR 0x0D, CHR 0x09, CHR 0x08, CHR 0x0C]"
    by (simp_all add: ord_def)
  let ?xs = "[PInt 1, PStr [CHR 0xE9], PNone]"
  let ?rs = "[''1'', [CHR 0x22, CHR 0xE9, CHR 0x22], ''null'']"
  have b: "length ?rs = length ?xs \<and> (\<forall>i<length ?xs. json_dumps (?xs ! i) = Inr (?rs ! i))"
    by (simp add: json_dumps_def encode_basestring_def e9 i1 All_less_Suc numeral_3_eq_3)
  let ?ys = "[PInt 1, PDict [(PTuple [], PNone)]]"
  let ?e = "TypeError ''keys must be str, int, float, bool or None, not tuple''"
  have c: "1 < length ?ys \<and> (\<forall>j<1. \<not> isl (json_dumps (?ys ! j))) \<and> json_dumps (?ys ! 1) = Inl ?e"
    by (simp add: json_dumps_def json_key_def class_name_def i1)
  let ?kvs = "[(PStr [CHR 0xF8], PList []), (PInt 5, PBool True)]"
  let ?ks = "[[CHR 0x22, CHR 0xF8, CHR 0x22] @ '': []'', [CHR 0x22, CHR ''5'', CHR 0x22] @ '': true'']"
  have d: "length ?ks = length ?kvs
        \<and> (\<forall>i<length ?kvs. \<exists>k v. json_key (fst (?kvs ! i)) = Inr k \<and> json_dumps (snd (?kvs ! i)) = Inr v
               \<and> ?ks ! i = [CHR 0x22] @ concat (map json_escape k) @ [CHR 0x22] @ '': '' @ v)"
    by (simp add: json_dumps_def json_key_def i5 f8 All_less_Suc numeral_2_eq_2)
       (simp add: json_escape_def ord_def)
  let ?bad = "[(PStr ''k'', PInt 1), (PTuple [], PNone)]"
  have f: "1 < length ?bad
        \<and> (\<forall>j<1. \<not> isl (json_key (fst (?bad ! j))) \<and> \<not> isl (json_dumps (snd (?bad ! j))))
        \<and> (json_key (fst (?bad ! 1)) = Inl ?e
            \<or> (\<not> isl (json_key (fst (?bad ! 1))) \<and> json_dumps (snd (?bad ! 1)) = Inl ?e))"
    by (simp add: json_dumps_def json_key_def class_name_def i1)
  let ?t = "[CHR ''{'', CHR 0x22, CHR 0xF8, CHR 0x22] @ '': [], \"5\": true}''"
  have g: "json_dumps (PDict ?kvs) = Inr ?t"
    by (simp add: json_dumps_def json_key_def encode_basestring_def i5 f8)
       (simp add: json_escape_def ord_def)
  have h: "non_ascii (str_chars (PDict ?kvs)) = [CHR 0xF8]"
    by (simp add: non_ascii_def ord_def)
  show ?thesis
    using json_coercion [where lib = sample_lib and c = "CHR 0xE9" and xs = ?xs and rs = ?rs]
      json_coercion [where lib = sample_lib and c = "CHR 0x01" and xs = ?ys and i = 1 and e = ?e]
      json_coercion [where lib = sample_lib and kvs = ?kvs and rs = ?ks and x = "PDict ?kvs" and t = ?t]
      json_coercion [where lib = sample_lib and kvs = ?bad and i = 1 and e = ?e]
      a b c d f g h
    by (simp add: ord_def)
qed



text \<open>
  C7. A call with no parameters (\<^verbatim>\<open>None\<close> or the empty dict) on which the driver
  connects, opens a cursor, executes \<^verbatim>\<open>EXEC <procedure>\<close> with row count \<open>n\<close> and commits
  returns \<^verbatim>\<open>success == True\<close> and \<^verbatim>\<open>rows_updated == n\<close>.
\<close>

theorem no_params_success:
  assumes "params = None \<or> params = Some []"
    and "connect drv (Some cs) = None" and "cursor drv = None"
    and "execute drv (''EXEC '' @ sp) None = Inr n"
    and "commit drv = None"
  shows "success (fst (execute_stored_procedure lib drv cs sp params))
         \<and> rows_updated (fst (execute_stored_procedure lib drv cs sp params)) = Some n"
  using assms(4)
  by (simp add: success_execute rows_updated_execute try_body_state assms(2,3,5)
        if_params_no_params [OF assms(1)] commit_and_report_def)

theorem no_params_success_witness:
  "success (fst (execute_stored_procedure sample_lib (ok_driver 0) ''DSN=purge'' ''proc'' None))
   \<and> rows_updated (fst (execute_stored_procedure sample_lib (ok_driver 0) ''DSN=purge'' ''proc'' None))
       = Some 0"
  using no_params_success [of None "ok_driver 0" "''DSN=purge''" "''proc''" 0 sample_lib]
  by (simp add: ok_driver_def)

text \<open>
  C8. The claim: a call whose dict carries an error message has issued no commit. The
  code breaks it on the calls of C1: \<^verbatim>\<open>conn.commit()\<close> has returned when line 73 raises.
  The calls issued at one such call, and its error message:
\<close>

theorem commit_before_error_message:
  "snd (execute_stored_procedure sample_lib (ok_driver 1) ''DSN=purge'' ''proc''
          (Some [(''name'', PTuple [PStr ''str'', PStr ''x''])]))
     = [Connect (Some ''DSN=purge''), Cursor, Execute ''EXEC proc @name = ?'' (Some [Py (PStr ''x'')]),
        PrintCursor, Commit, CursorExit True, ConnExit True]
   \<and> commit (ok_driver 1) = None
   \<and> error_message (fst (execute_stored_procedure sample_lib (ok_driver 1) ''DSN=purge'' ''proc''
          (Some [(''name'', PTuple [PStr ''str'', PStr ''x''])])))
     \<noteq> None"
  by (simp add: run_eval coerce_eval)

text \<open>
  C9. The claim: the connection is released on every path, also when the catalog query
  fails. \<^verbatim>\<open>conn.close()\<close> is the statement after the cursor's block, so an exception
  raised in the block leaves the function before it: on a failing query the calls are
  \<^verbatim>\<open>connect\<close>, \<^verbatim>\<open>cursor\<close>, \<^verbatim>\<open>execute\<close> and the cursor's \<^verbatim>\<open>__exit__\<close>, and no \<^verbatim>\<open>close\<close>. (When
  every call succeeds the names are returned in the order of \<^verbatim>\<open>fetchall\<close> and the
  connection is closed: \<open>list_stored_procedures_ok\<close>.)
\<close>

theorem connection_left_open_on_query_failure:
  "list_stored_procedures (\<lambda>name. if name = ''DbConnectionString'' then Some ''DSN=purge'' else None)
      ((ok_driver 0)\<lparr>execute := (\<lambda>sql ps. Inl (PyodbcError ''42000 permission denied''))\<rparr>)
     = (Inl (PyodbcError ''42000 permission denied''),
        [Connect (Some ''DSN=purge''), Cursor, Execute catalog_query None, CursorExit True])
   \<and> Close \<notin> set (snd (list_stored_procedures
        (\<lambda>name. if name = ''DbConnectionString'' then Some ''DSN=purge'' else None)
        ((ok_driver 0)\<lparr>execute := (\<lambda>sql ps. Inl (PyodbcError ''42000 permission denied''))\<rparr>)))"
  by (simp add: list_stored_procedures_def with_exit_def ok_driver_def)


text \<open>
  C10. The empty dict is handled as \<^verbatim>\<open>None\<close> is: the same returned dict and the same
  calls, along the branch that executes \<^verbatim>\<open>EXEC <procedure>\<close> without bound values.
\<close>

theorem empty_params_as_None:
  "execute_stored_procedure lib drv cs sp (Some []) = execute_stored_procedure lib drv cs sp None
   \<and> if_params lib drv sp (Some []) =
       (case execute drv (''EXEC '' @ sp) None of
          Inl e \<Rightarrow> (Inl e, [Execute (''EXEC '' @ sp) None])
        | Inr n \<Rightarrow> (Inr (Some n), [Execute (''EXEC '' @ sp) None, Print ''Should be executed'']))"
proof
  show "execute_stored_procedure lib drv cs sp (Some []) = execute_stored_procedure lib drv cs sp None"
    unfolding execute_stored_procedure_def try_body_def if_params_empty ..
  show "if_params lib drv sp (Some []) =
       (case execute drv (''EXEC '' @ sp) None of
          Inl e \<Rightarrow> (Inl e, [Execute (''EXEC '' @ sp) None])
        | Inr n \<Rightarrow> (Inr (Some n), [Execute (''EXEC '' @ sp) None, Print ''Should be executed'']))"
    by (simp add: if_params_no_params)
qed

theorem empty_params_as_None_witness:
  "execute_stored_procedure sample_lib (ok_driver 0) ''DSN=purge'' ''proc'' (Some [])
     = execute_stored_procedure sample_lib (ok_driver 0) ''DSN=purge'' ''proc'' None
   \<and> if_params sample_lib (ok_driver 0) ''proc'' (Some [])
     = (Inr (Some 0), [Execute ''EXEC proc'' None, Print ''Should be executed''])"
  using empty_params_as_None [of sample_lib "ok_driver 0" "''DSN=purge''" "''proc''"]
  by (simp add: ok_driver_def)

end
